theory Spec2Isabelle
  imports Complex_Main
begin

section \<open>Strings and POSIX paths\<close>

text \<open>
  A Python \<open>str\<close> is modelled as an Isabelle \<open>string\<close>; a character stands for a code
  point below 256.  Code points beyond that range are outside the model.
\<close>

definition lower_char :: "char \<Rightarrow> char" where
  \<comment> \<open>\<open>str.lower\<close> on one code point below 256: the ASCII capitals and the Latin-1
     capitals (0xC0 .. 0xDE without the multiplication sign 0xD7) move up by 32.\<close>
  "lower_char c =
     (let n = (of_char c :: nat)
      in if (65 \<le> n \<and> n \<le> 90) \<or> (192 \<le> n \<and> n \<le> 222 \<and> n \<noteq> 215)
         then char_of (n + 32) else c)"

definition lower :: "string \<Rightarrow> string" where
  "lower s = map lower_char s"

definition endswith :: "string \<Rightarrow> string \<Rightarrow> bool" where
  "endswith s suf = (length suf \<le> length s \<and> drop (length s - length suf) s = suf)"

definition after_last :: "char \<Rightarrow> string \<Rightarrow> string" where
  \<comment> \<open>\<open>s[s.rfind(c) + 1:]\<close>: the whole of \<open>s\<close> when \<open>c\<close> does not occur.\<close>
  "after_last c s = rev (takeWhile (\<lambda>x. x \<noteq> c) (rev s))"

definition upto_last :: "char \<Rightarrow> string \<Rightarrow> string" where
  \<comment> \<open>\<open>s[:s.rfind(c) + 1]\<close>: empty when \<open>c\<close> does not occur.\<close>
  "upto_last c s = rev (dropWhile (\<lambda>x. x \<noteq> c) (rev s))"

definition splitext :: "string \<Rightarrow> string \<times> string" where
  \<comment> \<open>\<open>posixpath.splitext\<close>: the extension starts at the last dot of the last path
     component, unless only dots stand before it in that component.\<close>
  "splitext p =
     (let name = after_last (CHR ''/'') p;
          stem = upto_last (CHR ''.'') name;
          ext = after_last (CHR ''.'') name
      in if stem = [] then (p, [])
         else if list_all (\<lambda>c. c = CHR ''.'') (butlast stem) then (p, [])
         else (take (length p - Suc (length ext)) p, CHR ''.'' # ext))"

definition os_path_join :: "string \<Rightarrow> string \<Rightarrow> string" where
  \<comment> \<open>\<open>posixpath.join\<close> of two components.\<close>
  "os_path_join a b =
     (if b \<noteq> [] \<and> hd b = CHR ''/'' then b
      else if a = [] \<or> last a = CHR ''/'' then a @ b
      else a @ CHR ''/'' # b)"

definition os_path_basename :: "string \<Rightarrow> string" where
  "os_path_basename p = after_last (CHR ''/'') p"

definition os_path_dirname :: "string \<Rightarrow> string" where
  \<comment> \<open>\<open>posixpath.dirname\<close>: the head up to the last slash, without its trailing
     slashes unless it consists of slashes only.\<close>
  "os_path_dirname p =
     (let h = upto_last (CHR ''/'') p
      in if list_all (\<lambda>c. c = CHR ''/'') h then h
         else rev (dropWhile (\<lambda>c. c = CHR ''/'') (rev h)))"

section \<open>The file matcher\<close>

subsection \<open>The sidecar name pattern\<close>

text \<open>
  \<open>re.match(r'^(.*)\.[^.]+\.[^.]+\.json$', json_name, re.IGNORECASE)\<close>, group 1.
  The name has to be \<open>core . a . b .json\<close> with \<open>a\<close> and \<open>b\<close> non-empty and free of
  dots; \<open>json\<close> is compared without case; \<open>$\<close> also matches before one trailing newline;
  the dot of \<open>(.*)\<close> matches no newline, so \<open>core\<close> holds none.  The three dots before
  \<open>a\<close>, \<open>b\<close> and \<open>json\<close> are the last three dots of the name, so \<open>core\<close> is unique.
\<close>

definition rsplit_dot :: "string \<Rightarrow> (string \<times> string) option" where
  \<comment> \<open>\<open>u = pre . seg\<close> with \<open>seg\<close> non-empty and free of dots.\<close>
  "rsplit_dot u =
     (let seg = after_last (CHR ''.'') u; pre = upto_last (CHR ''.'') u
      in if pre = [] \<or> seg = [] then None else Some (butlast pre, seg))"

definition chop_newline :: "string \<Rightarrow> string" where
  "chop_newline s = (if s \<noteq> [] \<and> last s = CHR 0x0A then butlast s else s)"

definition match_body :: "string \<Rightarrow> string option" where
  \<comment> \<open>The pattern with \<open>$\<close> at the very end of the name.\<close>
  "match_body t =
     (if \<not> endswith (lower t) ''.json'' then None
      else case rsplit_dot (take (length t - 5) t) of
             None \<Rightarrow> None
           | Some (r, b) \<Rightarrow>
               (case rsplit_dot r of
                  None \<Rightarrow> None
                | Some (core_name, a) \<Rightarrow>
                    if CHR 0x0A \<in> set core_name then None else Some core_name))"

definition base_pattern :: "string \<Rightarrow> string option" where
  \<comment> \<open>\<open>$\<close> stands at the end of the name, or before a newline that ends it.\<close>
  "base_pattern json_name =
     (case match_body json_name of
        Some core_name \<Rightarrow> Some core_name
      | None \<Rightarrow> match_body (chop_newline json_name))"

subsection \<open>Globbing\<close>

definition magic_char :: "char \<Rightarrow> bool" where
  "magic_char c = (c = CHR ''*'' \<or> c = CHR ''?'' \<or> c = CHR ''['')"

definition has_magic :: "string \<Rightarrow> bool" where
  "has_magic s = list_ex magic_char s"

definition glob_escape :: "string \<Rightarrow> string" where
  \<comment> \<open>\<open>glob.escape\<close>: every one of \<open>*\<close>, \<open>?\<close> and \<open>[\<close> is wrapped in square brackets.\<close>
  "glob_escape s = concat (map (\<lambda>c. if magic_char c then [CHR ''['', c, CHR '']''] else [c]) s)"

fun find_close :: "string \<Rightarrow> (string \<times> string) option" where
  "find_close [] = None"
| "find_close (c # cs) =
     (if c = CHR '']'' then Some ([], cs)
      else case find_close cs of None \<Rightarrow> None | Some (a, b) \<Rightarrow> Some (c # a, b))"

definition class_split :: "string \<Rightarrow> (string \<times> string) option" where
  \<comment> \<open>\<open>fnmatch.translate\<close> after an opening bracket: an exclamation mark and then a
     closing bracket standing first belong to the class; the class ends at the next
     closing bracket.  \<open>None\<close> when none follows: the opening bracket is then literal.\<close>
  "class_split p =
     (let (pre1, r1) = (if p \<noteq> [] \<and> hd p = CHR ''!'' then ([CHR ''!''], tl p) else ([], p));
          (pre2, r2) = (if r1 \<noteq> [] \<and> hd r1 = CHR '']'' then ([CHR '']''], tl r1) else ([], r1))
      in case find_close r2 of
           None \<Rightarrow> None
         | Some (a, rest) \<Rightarrow> Some (pre1 @ pre2 @ a, rest))"

fun cls_member :: "string \<Rightarrow> char \<Rightarrow> bool" where
  "cls_member [] x = False"
| "cls_member [a] x = (a = x)"
| "cls_member [a, b] x = (a = x \<or> b = x)"
| "cls_member (a # m # b # r) x =
     (if m = CHR ''-''
      then ((of_char a :: nat) \<le> of_char x \<and> (of_char x :: nat) \<le> of_char b) \<or> cls_member r x
      else a = x \<or> cls_member (m # b # r) x)"

definition in_class :: "string \<Rightarrow> char \<Rightarrow> bool" where
  "in_class stuff x =
     (if stuff = [] then False
      else if stuff = ''!'' then True
      else if hd stuff = CHR ''!'' then \<not> cls_member (tl stuff) x
      else cls_member stuff x)"

function fnmatch :: "string \<Rightarrow> string \<Rightarrow> bool" where
  "fnmatch [] n = (n = [])"
| "fnmatch (c # p) [] = (if c = CHR ''*'' then fnmatch p [] else False)"
| "fnmatch (c # p) (x # xs) =
     (if c = CHR ''*'' then (if fnmatch p (x # xs) then True else fnmatch (c # p) xs)
      else if c = CHR ''?'' then fnmatch p xs
      else if c = CHR ''['' then
        (case class_split p of
           None \<Rightarrow> x = CHR ''['' \<and> fnmatch p xs
         | Some (stuff, rest) \<Rightarrow> in_class stuff x \<and> fnmatch rest xs)
      else x = c \<and> fnmatch p xs)"
  by pat_completeness auto
lemma find_close_length: "find_close q = Some (a, rest) \<Longrightarrow> length rest < length q"
  by (induction q arbitrary: a rest) (auto split: if_splits option.splits)

lemma class_split_length: "class_split q = Some (stuff, rest) \<Longrightarrow> length rest < length q"
  unfolding class_split_def
  by (auto split: if_splits option.splits prod.splits dest!: find_close_length simp: Let_def)

termination fnmatch
  by (relation "measure (\<lambda>(p, n). length p + length n)") (auto dest: class_split_length)

text \<open>
  A directory as \<open>glob\<close> sees it: its path and the names of its entries in the order of
  the listing.  The path is taken to hold none of \<open>*\<close>, \<open>?\<close> and \<open>[\<close>, and a sidecar
  name to hold no slash, as the names that \<open>os.walk\<close> hands to the matcher do.
\<close>

record directory =
  dir_path :: string
  entries :: "string list"

definition ishidden :: "string \<Rightarrow> bool" where
  "ishidden s = (s \<noteq> [] \<and> hd s = CHR ''.'')"

definition glob1 :: "string list \<Rightarrow> string \<Rightarrow> string list" where
  \<comment> \<open>\<open>glob._glob1\<close>: hidden names are listed only for a pattern that starts with a dot.\<close>
  "glob1 names pat =
     filter (fnmatch pat) (if ishidden pat then names else filter (\<lambda>x. \<not> ishidden x) names)"

definition glob_glob :: "directory \<Rightarrow> string \<Rightarrow> string list" where
  \<comment> \<open>\<open>glob.glob(os.path.join(directory, pat))\<close>.  A pattern without magic is looked up
     by name (\<open>lexists\<close>; an empty one names the directory itself); any other is
     matched against the listing.\<close>
  "glob_glob d pat =
     (if \<not> has_magic pat then
        (if pat = [] then (if dir_path d = [] then [] else [os_path_join (dir_path d) pat])
         else if pat \<in> set (entries d) \<or> pat = ''.'' \<or> pat = ''..''
           then [os_path_join (dir_path d) pat]
         else [])
      else map (os_path_join (dir_path d)) (glob1 (entries d) pat))"

subsection \<open>smart\_file\_matcher\<close>

datatype level = INFO | WARNING | ERROR

definition valid_exts :: "string list" where
  "valid_exts = [''.jpg'', ''.jpeg'', ''.png'', ''.gif'', ''.mp4'', ''.mov'', ''.heic'', ''.webp'']"

definition patterns :: "string \<Rightarrow> string list" where
  \<comment> \<open>\<open>core_name.split('.')[0]\<close> is the part before the first dot.\<close>
  "patterns core_name =
     [core_name,
      core_name @ ''.*'',
      takeWhile (\<lambda>c. c \<noteq> CHR ''.'') core_name @ ''*'']"

definition accepted :: "string \<Rightarrow> bool" where
  "accepted candidate =
     (lower (snd (splitext candidate)) \<in> set valid_exts
      \<and> \<not> endswith (lower candidate) ''.json'')"

definition candidates :: "string \<Rightarrow> directory \<Rightarrow> string list" where
  \<comment> \<open>The candidates in the order the two nested loops visit them.\<close>
  "candidates core_name d =
     concat (map (\<lambda>pattern. glob_glob d (glob_escape pattern)) (patterns core_name))"

definition smart_file_matcher :: "string \<Rightarrow> directory \<Rightarrow> string option" where
  "smart_file_matcher json_name d =
     (case base_pattern json_name of
        None \<Rightarrow> None
      | Some core_name \<Rightarrow> find accepted (candidates core_name d))"

definition matcher_warnings :: "string \<Rightarrow> (level \<times> string) list" where
  \<comment> \<open>What the matcher logs: one warning, naming a name that is not of the form.\<close>
  "matcher_warnings json_name =
     (case base_pattern json_name of None \<Rightarrow> [(WARNING, json_name)] | Some _ \<Rightarrow> [])"

section \<open>Sidecar data\<close>

text \<open>
  What \<open>json.load\<close> returns.  A float is its exact value or one of the three special
  values that \<open>json.load\<close> accepts; a dictionary is the list of its items.
\<close>

datatype pyfloat = Finite real | PosInf | NegInf | NaN

datatype json =
    JNull
  | JBool bool
  | JInt int
  | JFloat pyfloat
  | JString string
  | JArray "json list"
  | JObject "(string \<times> json) list"

datatype exn = ValueError | TypeError | OverflowError | AttributeError | OSError

datatype error_msg =
    Clean_failed string
  | Final_failure string
  | Unexpected_error string

text \<open>
  The three texts that the metadata writer returns with a failure: each is a fixed prefix
  (for a failed strip, a failed second run and an exception) followed by the text given.
\<close>

datatype message =
    No_time_source
  | Time_parse_failed exn
  | Invalid_coordinates pyfloat pyfloat
  | Geo_parse_failed exn
  | Updated string
  | First_failure string string
  | Trying_clean string
  | Error_text error_msg
  | Repaired string
  | Invalid_directory string
  | Started string
  | All_succeeded
  | Unhandled exn
  | Unhandled_text string

type_synonym log = "(level \<times> message) list"

definition dict_get :: "json \<Rightarrow> string \<Rightarrow> exn + json option" where
  \<comment> \<open>\<open>d.get(k)\<close>: only a dictionary has the method.\<close>
  "dict_get d k = (case d of JObject kvs \<Rightarrow> Inr (map_of kvs k) | _ \<Rightarrow> Inl AttributeError)"

fun truthy :: "json \<Rightarrow> bool" where
  "truthy JNull = False"
| "truthy (JBool b) = b"
| "truthy (JInt n) = (n \<noteq> 0)"
| "truthy (JFloat f) = (f \<noteq> Finite 0)"
| "truthy (JString s) = (s \<noteq> [])"
| "truthy (JArray xs) = (xs \<noteq> [])"
| "truthy (JObject kvs) = (kvs \<noteq> [])"

section \<open>The time extractor\<close>

subsection \<open>Reading one value\<close>

datatype conv =
    Found int
  | Skip
  | Fatal exn

text \<open>
  The body of the \<open>try\<close> inside the loop ends in one of three ways: \<open>Found t\<close> sets the
  timestamp and leaves the loop; \<open>Skip\<close> is a \<open>ValueError\<close> or \<open>TypeError\<close>, which the
  inner handler turns into \<open>continue\<close>; \<open>Fatal e\<close> is any other exception, which leaves
  the loop for the outer handler.
\<close>

definition int_of_float :: "pyfloat \<Rightarrow> conv" where
  \<comment> \<open>\<open>int(value)\<close> truncates towards zero; \<open>int(nan)\<close> is a \<open>ValueError\<close>, \<open>int(inf)\<close> an
     \<open>OverflowError\<close>.\<close>
  "int_of_float f =
     (case f of
        Finite r \<Rightarrow> Found (if 0 \<le> r then \<lfloor>r\<rfloor> else \<lceil>r\<rceil>)
      | NaN \<Rightarrow> Skip
      | _ \<Rightarrow> Fatal OverflowError)"

definition digit_char :: "char \<Rightarrow> bool" where
  \<comment> \<open>The code points below 256 that \<open>str.isdigit\<close> accepts: the ten digits and the
     superscripts two, three and one.\<close>
  "digit_char c =
     (let n = (of_char c :: nat) in (48 \<le> n \<and> n \<le> 57) \<or> n = 178 \<or> n = 179 \<or> n = 185)"

definition isdigit :: "string \<Rightarrow> bool" where
  "isdigit s = (s \<noteq> [] \<and> list_all digit_char s)"

definition ascii_digit :: "char \<Rightarrow> bool" where
  "ascii_digit c = (let n = (of_char c :: nat) in 48 \<le> n \<and> n \<le> 57)"

definition int_of_digits :: "string \<Rightarrow> conv" where
  \<comment> \<open>\<open>int(value)\<close> on a string that passed \<open>isdigit\<close>: a superscript digit is a
     \<open>ValueError\<close>.\<close>
  "int_of_digits s =
     (if list_all ascii_digit s
      then Found (foldl (\<lambda>a c. 10 * a + (int (of_char c) - 48)) 0 s)
      else Skip)"

definition convert :: "(string \<Rightarrow> conv) \<Rightarrow> json \<Rightarrow> conv" where
  \<comment> \<open>The parameter stands for
     \<open>int(datetime.strptime(value, "%Y:%m:%d %H:%M:%S").timestamp())\<close> on a string, which
     depends on the time zone of the machine.  A \<open>bool\<close> is an \<open>int\<close> for \<open>isinstance\<close>;
     \<open>strptime\<close> on a list or a dictionary is a \<open>TypeError\<close>.\<close>
  "convert parse_formatted v =
     (case v of
        JInt n \<Rightarrow> Found n
      | JBool b \<Rightarrow> Found (if b then 1 else 0)
      | JFloat f \<Rightarrow> int_of_float f
      | JString s \<Rightarrow> if isdigit s then int_of_digits s else parse_formatted s
      | _ \<Rightarrow> Skip)"

subsection \<open>The search over the four locations\<close>

definition time_sources :: "(string \<times> string) list" where
  "time_sources =
     [(''photoTakenTime'', ''timestamp''),
      (''creationTime'', ''timestamp''),
      (''photoTakenTime'', ''formatted''),
      (''creationTime'', ''formatted'')]"

definition lookup_source :: "json \<Rightarrow> string \<times> string \<Rightarrow> exn + json option" where
  \<comment> \<open>\<open>data.get(main_key, {}).get(sub_key)\<close>.\<close>
  "lookup_source data ks =
     (case dict_get data (fst ks) of
        Inl e \<Rightarrow> Inl e
      | Inr None \<Rightarrow> Inr None
      | Inr (Some obj) \<Rightarrow> dict_get obj (snd ks))"

fun scan_sources :: "(string \<Rightarrow> conv) \<Rightarrow> json \<Rightarrow> (string \<times> string) list \<Rightarrow> exn + int option" where
  "scan_sources pf data [] = Inr None"
| "scan_sources pf data (ks # rest) =
     (case lookup_source data ks of
        Inl e \<Rightarrow> Inl e
      | Inr None \<Rightarrow> scan_sources pf data rest
      | Inr (Some v) \<Rightarrow>
          if truthy v then
            (case convert pf v of
               Found t \<Rightarrow> Inr (Some t)
             | Skip \<Rightarrow> scan_sources pf data rest
             | Fatal e \<Rightarrow> Inl e)
          else scan_sources pf data rest)"

subsection \<open>What the search meets at a location\<close>

definition empty_value :: "json \<Rightarrow> bool" where
  \<comment> \<open>\<open>null\<close>, the empty string, the empty list and the empty dictionary.\<close>
  "empty_value v = (v = JNull \<or> v = JString [] \<or> v = JArray [] \<or> v = JObject [])"

definition passed_over :: "(string \<Rightarrow> conv) \<Rightarrow> json \<Rightarrow> string \<times> string \<Rightarrow> bool" where
  \<comment> \<open>The location can be read and holds nothing, an empty value, or a value whose
     conversion raises \<open>ValueError\<close> or \<open>TypeError\<close>.\<close>
  "passed_over pf data ks =
     (case lookup_source data ks of
        Inl e \<Rightarrow> False
      | Inr None \<Rightarrow> True
      | Inr (Some v) \<Rightarrow> empty_value v \<or> (truthy v \<and> convert pf v = Skip))"


subsection \<open>Formatting\<close>

text \<open>
  A naive \<open>datetime\<close> is modelled by its number of seconds since 1970-01-01 00:00:00 on
  its own time line; its fields are computed when it is printed.  The type covers the
  years 1 to 9999.
\<close>

definition min_seconds :: int where
  "min_seconds = - 62135596800"

definition max_seconds :: int where
  "max_seconds = 253402300799"

definition utcfromtimestamp :: "int \<Rightarrow> exn + int" where
  \<comment> \<open>Outside the years 1 to 9999 the call raises; the class of the exception depends on
     the platform and on the distance, and the outer handler treats all alike.\<close>
  "utcfromtimestamp t = (if min_seconds \<le> t \<and> t \<le> max_seconds then Inr t else Inl ValueError)"

definition add_hours :: "int \<Rightarrow> int \<Rightarrow> exn + int" where
  \<comment> \<open>\<open>dt + timedelta(hours=h)\<close>.\<close>
  "add_hours dt h =
     (let r = dt + 3600 * h
      in if min_seconds \<le> r \<and> r \<le> max_seconds then Inr r else Inl OverflowError)"

definition civil_from_days :: "int \<Rightarrow> int \<times> int \<times> int" where
  \<comment> \<open>Year, month and day of the proleptic Gregorian calendar, from the number of
     days since 1970-01-01.\<close>
  "civil_from_days days =
     (let z = days + 719468;
          era = z div 146097;
          doe = z mod 146097;
          yoe = (doe - doe div 1460 + doe div 36524 - doe div 146096) div 365;
          doy = doe - (365 * yoe + yoe div 4 - yoe div 100);
          mp = (5 * doy + 2) div 153;
          d = doy - (153 * mp + 2) div 5 + 1;
          m = (if mp < 10 then mp + 3 else mp - 9);
          y = yoe + era * 400 + (if m \<le> 2 then 1 else 0)
      in (y, m, d))"

definition digit_of :: "int \<Rightarrow> char" where
  "digit_of n = char_of (48 + nat (n mod 10))"

function decimal :: "int \<Rightarrow> string" where
  "decimal n = (if n < 10 then [digit_of n] else decimal (n div 10) @ [digit_of n])"
  by pat_completeness auto
termination
  by (relation "measure (\<lambda>n. nat n)") auto

declare decimal.simps [simp del]

definition two_digits :: "int \<Rightarrow> string" where
  "two_digits n = [digit_of (n div 10), digit_of n]"

definition strftime :: "int \<Rightarrow> string" where
  \<comment> \<open>\<open>dt.strftime("%Y:%m:%d %H:%M:%S")\<close>; the year in decimal, four digits from the
     year 1000 on.\<close>
  "strftime dt =
     (let (y, m, d) = civil_from_days (dt div 86400);
          s = dt mod 86400
      in decimal y @ '':'' @ two_digits m @ '':'' @ two_digits d @ '' ''
         @ two_digits (s div 3600) @ '':'' @ two_digits (s mod 3600 div 60) @ '':''
         @ two_digits (s mod 60))"

definition beijing_time :: "int \<Rightarrow> exn + string" where
  \<comment> \<open>\<open>(datetime.utcfromtimestamp(timestamp) + timedelta(hours=8)).strftime(...)\<close>.\<close>
  "beijing_time timestamp =
     (case utcfromtimestamp timestamp of
        Inl e \<Rightarrow> Inl e
      | Inr dt \<Rightarrow> (case add_hours dt 8 of Inl e \<Rightarrow> Inl e | Inr b \<Rightarrow> Inr (strftime b)))"

subsection \<open>enhanced\_parse\_time\<close>

text \<open>
  The second argument is what opening and loading the file gave: the exception, or the
  loaded value.  The result is the returned string (\<open>None\<close> for Python's \<open>None\<close>) with the
  messages logged.
\<close>

definition enhanced_parse_time :: "(string \<Rightarrow> conv) \<Rightarrow> exn + json \<Rightarrow> string option \<times> log" where
  "enhanced_parse_time pf loaded =
     (case loaded of
        Inl e \<Rightarrow> (None, [(ERROR, Time_parse_failed e)])
      | Inr data \<Rightarrow>
          (case scan_sources pf data time_sources of
             Inl e \<Rightarrow> (None, [(ERROR, Time_parse_failed e)])
           | Inr None \<Rightarrow> (None, [(WARNING, No_time_source)])
           | Inr (Some timestamp) \<Rightarrow>
               if timestamp = 0 then (None, [(WARNING, No_time_source)])
               else (case beijing_time timestamp of
                       Inl e \<Rightarrow> (None, [(ERROR, Time_parse_failed e)])
                     | Inr s \<Rightarrow> (Some s, []))))"

section \<open>The geo extractor\<close>













section \<open>The metadata writer\<close>

text \<open>
  \<open>subprocess.run\<close> either raises (the tool cannot be started) or completes with an exit
  status and the text of the error stream.  The world answers the \<open>k\<close>-th run of the
  whole program from its argument list.
\<close>

datatype proc =
    Completed int string
  | Proc_raises string

type_synonym world = "nat \<Rightarrow> string list \<Rightarrow> proc"

datatype 'a outcome =
    Returned 'a
  | Raised string

record exec_result =
  outcome :: "(bool \<times> error_msg option) outcome"
  cmd_after :: "string list"
  calls :: "string list list"
  logged :: log

definition list_insert :: "nat \<Rightarrow> 'a \<Rightarrow> 'a list \<Rightarrow> 'a list" where
  \<comment> \<open>\<open>xs.insert(i, x)\<close> for \<open>i \<ge> 0\<close>: past the end it appends.\<close>
  "list_insert i x xs = take i xs @ x # drop i xs"

definition isspace :: "char \<Rightarrow> bool" where
  "isspace c =
     (let n = (of_char c :: nat)
      in (9 \<le> n \<and> n \<le> 13) \<or> (28 \<le> n \<and> n \<le> 32) \<or> n = 133 \<or> n = 160)"

definition strip :: "string \<Rightarrow> string" where
  "strip s = rev (dropWhile isspace (rev (dropWhile isspace s)))"

definition clean_cmd :: "string \<Rightarrow> string list" where
  "clean_cmd file_path = [''exiftool'', ''-m'', ''-overwrite_original'', ''-all='', file_path]"

definition robust_exiftool_exec ::
  "world \<Rightarrow> string list list \<Rightarrow> string list \<Rightarrow> string \<Rightarrow> exec_result" where
  \<comment> \<open>\<open>done\<close> holds the runs made before the call.  The first run stands before the
     \<open>try\<close>; the strip and the second run stand inside it.\<close>
  "robust_exiftool_exec w done cmd file_path =
     (let cmd1 = list_insert 1 ''-m'' cmd
      in case w (length done) cmd1 of
           Proc_raises e \<Rightarrow>
             \<lparr>outcome = Raised e, cmd_after = cmd1, calls = done @ [cmd1], logged = []\<rparr>
         | Completed returncode stderr \<Rightarrow>
             if returncode = 0 then
               \<lparr>outcome = Returned (True, None), cmd_after = cmd1, calls = done @ [cmd1],
                logged = [(INFO, Updated file_path)]\<rparr>
             else
               (let first = [(WARNING, First_failure file_path (strip stderr)),
                             (INFO, Trying_clean file_path)]
                in case w (length done + 1) (clean_cmd file_path) of
                     Proc_raises e \<Rightarrow>
                       \<lparr>outcome = Returned (False, Some (Unexpected_error e)),
                        cmd_after = cmd1, calls = done @ [cmd1, clean_cmd file_path],
                        logged = first @ [(ERROR, Error_text (Unexpected_error e))]\<rparr>
                   | Completed clean_code clean_stderr \<Rightarrow>
                       if clean_code \<noteq> 0 then
                         \<lparr>outcome = Returned (False, Some (Clean_failed (strip clean_stderr))),
                          cmd_after = cmd1, calls = done @ [cmd1, clean_cmd file_path],
                          logged = first @ [(ERROR, Error_text (Clean_failed (strip clean_stderr)))]\<rparr>
                       else
                         (case w (length done + 2) cmd1 of
                            Proc_raises e \<Rightarrow>
                              \<lparr>outcome = Returned (False, Some (Unexpected_error e)),
                               cmd_after = cmd1,
                               calls = done @ [cmd1, clean_cmd file_path, cmd1],
                               logged = first @ [(ERROR, Error_text (Unexpected_error e))]\<rparr>
                          | Completed retry_code retry_stderr \<Rightarrow>
                              if retry_code = 0 then
                                \<lparr>outcome = Returned (True, None), cmd_after = cmd1,
                                 calls = done @ [cmd1, clean_cmd file_path, cmd1],
                                 logged = first @ [(INFO, Repaired file_path)]\<rparr>
                              else
                                \<lparr>outcome = Returned (False, Some (Final_failure (strip retry_stderr))),
                                 cmd_after = cmd1,
                                 calls = done @ [cmd1, clean_cmd file_path, cmd1],
                                 logged = first
                                   @ [(ERROR, Error_text (Final_failure (strip retry_stderr)))]\<rparr>)))"

section \<open>Reporting and exit status\<close>

datatype reason =
    Media_not_found
  | No_valid_metadata
  | Writer_error error_msg

text \<open>
  The reasons that \<open>process_directory\<close> records: its two fixed texts, and the text that
  the metadata writer returned.
\<close>

datatype 'r report_line =
    Title
  | Rule_equals
  | Path_line string 'r
  | Rule_dashes

text \<open>
  The lines of the failure report: a title, a rule of fifty equals signs and, for every
  failure, its path and reason (written as two lines) and a rule of fifty dashes.
\<close>

definition failure_log_name :: "string \<Rightarrow> string" where
  "failure_log_name log_path =
     os_path_join (os_path_dirname log_path) (''FAILURES_'' @ os_path_basename log_path)"

definition report_lines :: "(string \<times> 'r) list \<Rightarrow> 'r report_line list" where
  "report_lines failures =
     Title # Rule_equals
       # concat (map (\<lambda>(path, reason). [Path_line path reason, Rule_dashes]) failures)"

definition generate_failure_log ::
  "bool \<Rightarrow> (string \<times> 'r) list \<Rightarrow> string \<Rightarrow> exn + (string \<times> 'r report_line list) option" where
  \<comment> \<open>The first argument tells whether the report file can be opened for writing.  The
     result is the file written, if any.\<close>
  "generate_failure_log writable failures log_path =
     (if failures = [] then Inr None
      else if writable then Inr (Some (failure_log_name log_path, report_lines failures))
      else Inl OSError)"

record 'r run =
  exit_status :: int
  report :: "(string \<times> 'r report_line list) option"
  run_log :: log

definition main ::
  "string \<Rightarrow> bool \<Rightarrow> string + (string \<times> 'r) list \<Rightarrow> bool \<Rightarrow> string \<Rightarrow> 'r run" where
  \<comment> \<open>From \<open>parse_args\<close> on.  \<open>is_dir\<close> is \<open>os.path.isdir(target_dir)\<close>; \<open>processed\<close> is
     what \<open>process_directory\<close> did: the text of the exception it raised, or the list it
     returned.  \<open>sys.exit\<close> raises \<open>SystemExit\<close>, which \<open>except Exception\<close> lets pass.\<close>
  "main target_dir is_dir processed writable log_path =
     (if \<not> is_dir then
        \<lparr>exit_status = 1, report = None, run_log = [(ERROR, Invalid_directory target_dir)]\<rparr>
      else
        (case processed of
           Inl e \<Rightarrow>
             \<lparr>exit_status = 1, report = None,
              run_log = [(INFO, Started target_dir), (ERROR, Unhandled_text e)]\<rparr>
         | Inr failed_files \<Rightarrow>
             if failed_files \<noteq> [] then
               (case generate_failure_log writable failed_files log_path of
                  Inl e \<Rightarrow>
                    \<lparr>exit_status = 1, report = None,
                     run_log = [(INFO, Started target_dir), (ERROR, Unhandled e)]\<rparr>
                | Inr r \<Rightarrow>
                    \<lparr>exit_status = 101, report = r, run_log = [(INFO, Started target_dir)]\<rparr>)
             else
               \<lparr>exit_status = 0, report = None,
                run_log = [(INFO, Started target_dir), (INFO, All_succeeded)]\<rparr>))"

section \<open>Example inputs\<close>

definition rejects_all :: "string \<Rightarrow> conv" where
  \<comment> \<open>For sidecars that hold no formatted string.\<close>
  "rejects_all s = Skip"


definition null_taken_time :: json where
  "null_taken_time =
     JObject [(''photoTakenTime'', JNull),
              (''creationTime'', JObject [(''timestamp'', JString ''1600000000'')])]"





definition missing_tool :: world where
  "missing_tool k args = Proc_raises ''[Errno 2] No such file or directory: exiftool''"


definition fails_once :: world where
  "fails_once k args = (if k = 0 then Completed 1 ''Error: bad IFD  '' else Completed 0 [])"



definition exif_cmd :: "string list" where
  "exif_cmd =
     [''exiftool'', ''-overwrite_original'', ''-AllDates=2020:09:13 20:26:40'', ''photo.jpg'']"

definition two_failures :: "(string \<times> reason) list" where
  "two_failures =
     [(''photos/b.c.d.json'', Media_not_found),
      (''photos/a.jpg'', Writer_error (Final_failure ''still bad''))]"

section \<open>Properties of the file matcher\<close>

subsection \<open>The names the pattern accepts\<close>

text \<open>
  The model of the pattern agrees with the regular expression read as a language: a name
  is accepted with the core \<open>core\<close> exactly when it is \<open>core\<close>, a dot, two non-empty
  segments free of dots, each followed by a dot, and \<open>json\<close> in any case, with at most
  one newline after it, and \<open>core\<close> holds no newline.
\<close>

lemma after_last_append:
  assumes "c \<notin> set ys"
  shows "after_last c (xs @ c # ys) = ys"
proof -
  have "takeWhile (\<lambda>x. x \<noteq> c) (rev ys @ c # rev xs) = rev ys"
    using assms by (subst takeWhile_append2) auto
  then show ?thesis
    by (simp add: after_last_def)
qed

lemma upto_last_append:
  assumes "c \<notin> set ys"
  shows "upto_last c (xs @ c # ys) = xs @ [c]"
proof -
  have "dropWhile (\<lambda>x. x \<noteq> c) (rev ys @ c # rev xs) = c # rev xs"
    using assms by (subst dropWhile_append2) auto
  then show ?thesis
    by (simp add: upto_last_def)
qed

lemma after_upto: "upto_last c s @ after_last c s = s"
proof -
  have "upto_last c s @ after_last c s
      = rev (takeWhile (\<lambda>x. x \<noteq> c) (rev s) @ dropWhile (\<lambda>x. x \<noteq> c) (rev s))"
    by (simp only: upto_last_def after_last_def rev_append)
  then show ?thesis
    by (simp only: takeWhile_dropWhile_id rev_rev_ident)
qed

lemma after_last_free: "c \<notin> set (after_last c s)"
  by (auto simp: after_last_def dest: set_takeWhileD)

lemma upto_last_ends:
  assumes "upto_last c s \<noteq> []"
  shows "last (upto_last c s) = c"
proof -
  from assms have ne: "dropWhile (\<lambda>x. x \<noteq> c) (rev s) \<noteq> []"
    by (simp add: upto_last_def)
  from hd_dropWhile [OF ne] have "hd (dropWhile (\<lambda>x. x \<noteq> c) (rev s)) = c"
    by simp
  with ne show ?thesis
    by (simp add: upto_last_def last_rev)
qed


lemma rsplit_dot_Some:
  "rsplit_dot u = Some (pre, seg) \<longleftrightarrow>
     (u = pre @ CHR ''.'' # seg \<and> seg \<noteq> [] \<and> CHR ''.'' \<notin> set seg)"
proof
  assume a: "rsplit_dot u = Some (pre, seg)"
  then have pne: "upto_last (CHR ''.'') u \<noteq> []" and ne: "after_last (CHR ''.'') u \<noteq> []"
    by (auto simp: rsplit_dot_def Let_def split: if_splits)
  from a pne ne have s: "after_last (CHR ''.'') u = seg"
    and p: "butlast (upto_last (CHR ''.'') u) = pre"
    by (simp_all add: rsplit_dot_def Let_def)
  obtain pre0 where e: "upto_last (CHR ''.'') u = pre0 @ [CHR ''.'']"
    using append_butlast_last_id [OF pne] upto_last_ends [OF pne] by metis
  with p have "pre0 = pre"
    by simp
  with e after_upto [of "CHR ''.''" u] s have "u = pre @ CHR ''.'' # seg"
    by simp
  moreover from s ne have "seg \<noteq> []"
    by simp
  moreover from s after_last_free [of "CHR ''.''" u] have "CHR ''.'' \<notin> set seg"
    by simp
  ultimately show "u = pre @ CHR ''.'' # seg \<and> seg \<noteq> [] \<and> CHR ''.'' \<notin> set seg"
    by blast
next
  assume "u = pre @ CHR ''.'' # seg \<and> seg \<noteq> [] \<and> CHR ''.'' \<notin> set seg"
  then show "rsplit_dot u = Some (pre, seg)"
    by (simp add: rsplit_dot_def after_last_append upto_last_append)
qed


lemma lower_char_code:
  "(of_char (lower_char x) :: nat) =
     (if (65 \<le> (of_char x :: nat) \<and> (of_char x :: nat) \<le> 90)
         \<or> (192 \<le> (of_char x :: nat) \<and> (of_char x :: nat) \<le> 222 \<and> (of_char x :: nat) \<noteq> 215)
      then of_char x + 32 else of_char x)"
  by (simp add: lower_char_def Let_def)

lemma lower_char_dot: "lower_char x = CHR ''.'' \<longleftrightarrow> x = CHR ''.''"
proof -
  have "(of_char (lower_char x) :: nat) = 46 \<longleftrightarrow> (of_char x :: nat) = 46"
    unfolding lower_char_code by presburger
  moreover have "(of_char (CHR ''.'') :: nat) = 46"
    by simp
  ultimately have "(of_char (lower_char x) :: nat) = of_char (CHR ''.'')
      \<longleftrightarrow> (of_char x :: nat) = of_char (CHR ''.'')"
    by (simp only:)
  then show ?thesis
    by (simp only: of_char_eq_iff)
qed


lemma lower_dot_json:
  "lower sfx = ''.json'' \<longleftrightarrow> (\<exists>j. sfx = CHR ''.'' # j \<and> lower j = ''json'')"
  by (cases sfx) (auto simp: lower_def lower_char_dot)

lemma endswith_iff: "endswith s suf \<longleftrightarrow> (\<exists>u. s = u @ suf)"
proof
  assume a: "endswith s suf"
  have "s = take (length s - length suf) s @ drop (length s - length suf) s"
    by simp
  with a have "s = take (length s - length suf) s @ suf"
    by (simp add: endswith_def)
  then show "\<exists>u. s = u @ suf" ..
next
  assume "\<exists>u. s = u @ suf"
  then show "endswith s suf"
    by (auto simp: endswith_def)
qed

lemma endswith_lower_json:
  "endswith (lower t) ''.json'' \<longleftrightarrow> (\<exists>u j. t = u @ CHR ''.'' # j \<and> lower j = ''json'')"
proof
  assume "endswith (lower t) ''.json''"
  then obtain u' where "map lower_char t = u' @ ''.json''"
    unfolding endswith_iff lower_def by blast
  then have "\<exists>us vs. t = us @ vs \<and> u' = map lower_char us \<and> ''.json'' = map lower_char vs"
    by (rule map_eq_append_conv [THEN iffD1])
  then obtain u s where t: "t = u @ s" and s: "map lower_char s = ''.json''"
    by metis
  from s have "lower s = ''.json''"
    by (simp only: lower_def)
  then obtain j where "s = CHR ''.'' # j" and "lower j = ''json''"
    using lower_dot_json [of s] by blast
  with t show "\<exists>u j. t = u @ CHR ''.'' # j \<and> lower j = ''json''"
    by blast
next
  assume "\<exists>u j. t = u @ CHR ''.'' # j \<and> lower j = ''json''"
  then obtain u j where t: "t = u @ CHR ''.'' # j" and j: "lower j = ''json''"
    by blast
  have "lower (CHR ''.'' # j) = ''.json''"
    using j lower_dot_json [of "CHR ''.'' # j"] by blast
  with t have "lower t = lower u @ ''.json''"
    by (simp add: lower_def)
  then show "endswith (lower t) ''.json''"
    unfolding endswith_iff by blast
qed

lemma json_length: "lower j = ''json'' \<Longrightarrow> length j = 4"
  by (auto simp: lower_def dest: arg_cong [where f = length])


lemma match_body_Some:
  "match_body t = Some core \<longleftrightarrow>
     (\<exists>a b j. t = core @ CHR ''.'' # a @ CHR ''.'' # b @ CHR ''.'' # j
        \<and> lower j = ''json'' \<and> a \<noteq> [] \<and> b \<noteq> []
        \<and> CHR ''.'' \<notin> set a \<and> CHR ''.'' \<notin> set b \<and> CHR 0x0A \<notin> set core)"
proof
  assume m: "match_body t = Some core"
  then have "endswith (lower t) ''.json''"
    by (auto simp: match_body_def split: if_splits)
  then obtain u j where t: "t = u @ CHR ''.'' # j" and j: "lower j = ''json''"
    unfolding endswith_lower_json by blast
  have u: "take (length t - 5) t = u"
    using json_length [OF j] by (simp add: t)
  from m obtain r b a where r: "rsplit_dot u = Some (r, b)" and c: "rsplit_dot r = Some (core, a)"
    and nl: "CHR 0x0A \<notin> set core"
    by (auto simp: match_body_def u split: if_splits option.splits)
  from r c nl t j show "\<exists>a b j. t = core @ CHR ''.'' # a @ CHR ''.'' # b @ CHR ''.'' # j
        \<and> lower j = ''json'' \<and> a \<noteq> [] \<and> b \<noteq> []
        \<and> CHR ''.'' \<notin> set a \<and> CHR ''.'' \<notin> set b \<and> CHR 0x0A \<notin> set core"
    unfolding rsplit_dot_Some by auto
next
  assume "\<exists>a b j. t = core @ CHR ''.'' # a @ CHR ''.'' # b @ CHR ''.'' # j
        \<and> lower j = ''json'' \<and> a \<noteq> [] \<and> b \<noteq> []
        \<and> CHR ''.'' \<notin> set a \<and> CHR ''.'' \<notin> set b \<and> CHR 0x0A \<notin> set core"
  then obtain a b j where t: "t = core @ CHR ''.'' # a @ CHR ''.'' # b @ CHR ''.'' # j"
    and j: "lower j = ''json''" and ab: "a \<noteq> []" "b \<noteq> []"
    "CHR ''.'' \<notin> set a" "CHR ''.'' \<notin> set b" and nl: "CHR 0x0A \<notin> set core"
    by blast
  have e: "endswith (lower t) ''.json''"
    unfolding endswith_lower_json using t j by (metis append.assoc append_Cons)
  have u: "take (length t - 5) t = core @ CHR ''.'' # a @ CHR ''.'' # b"
    using json_length [OF j] by (simp add: t)
  have r1: "rsplit_dot (core @ CHR ''.'' # a @ CHR ''.'' # b) = Some (core @ CHR ''.'' # a, b)"
    using ab rsplit_dot_Some [of "core @ CHR ''.'' # a @ CHR ''.'' # b" "core @ CHR ''.'' # a" b]
    by simp
  have r2: "rsplit_dot (core @ CHR ''.'' # a) = Some (core, a)"
    using ab rsplit_dot_Some [of "core @ CHR ''.'' # a" core a] by simp
  show "match_body t = Some core"
    by (simp add: match_body_def e u r1 r2 nl)
qed


lemma chop_newline_cases:
  "chop_newline n = n \<or> n = chop_newline n @ [CHR 0x0A]"
  by (cases n rule: rev_cases) (auto simp: chop_newline_def)

lemma chop_newline_snoc: "chop_newline (t @ [CHR 0x0A]) = t"
  by (simp add: chop_newline_def)

lemma match_body_no_newline:
  "match_body (t @ [CHR 0x0A]) = None"
proof (cases "match_body (t @ [CHR 0x0A])")
  case None
  then show ?thesis .
next
  case (Some core)
  then obtain a b j where e: "t @ [CHR 0x0A] = core @ CHR ''.'' # a @ CHR ''.'' # b @ CHR ''.'' # j"
    and j: "lower j = ''json''"
    unfolding match_body_Some by blast
  from j obtain j0 x where jx: "j = j0 @ [x]" and x: "lower_char x = CHR ''n''"
    by (cases j rule: rev_cases) (auto simp: lower_def)
  from e jx have "last (t @ [CHR 0x0A]) = last (core @ CHR ''.'' # a @ CHR ''.'' # b @ CHR ''.'' # j0 @ [x])"
    by simp
  then have "x = CHR 0x0A"
    by (simp only: last_snoc last_appendR last_ConsR append_assoc [symmetric] append_Cons [symmetric])
  with x show ?thesis
    by (simp add: lower_char_def)
qed

lemma base_pattern_Some:
  "base_pattern n = Some core \<longleftrightarrow>
     (\<exists>a b j nl. n = core @ CHR ''.'' # a @ CHR ''.'' # b @ CHR ''.'' # j @ nl
        \<and> lower j = ''json'' \<and> a \<noteq> [] \<and> b \<noteq> []
        \<and> CHR ''.'' \<notin> set a \<and> CHR ''.'' \<notin> set b \<and> CHR 0x0A \<notin> set core
        \<and> (nl = [] \<or> nl = [CHR 0x0A]))"
proof
  assume b: "base_pattern n = Some core"
  show "\<exists>a b j nl. n = core @ CHR ''.'' # a @ CHR ''.'' # b @ CHR ''.'' # j @ nl
        \<and> lower j = ''json'' \<and> a \<noteq> [] \<and> b \<noteq> []
        \<and> CHR ''.'' \<notin> set a \<and> CHR ''.'' \<notin> set b \<and> CHR 0x0A \<notin> set core
        \<and> (nl = [] \<or> nl = [CHR 0x0A])"
  proof (cases "match_body n")
    case (Some c)
    with b have "match_body n = Some core"
      by (simp add: base_pattern_def)
    then obtain a b j where "n = core @ CHR ''.'' # a @ CHR ''.'' # b @ CHR ''.'' # j @ []"
      "lower j = ''json''" "a \<noteq> []" "b \<noteq> []" "CHR ''.'' \<notin> set a" "CHR ''.'' \<notin> set b"
      "CHR 0x0A \<notin> set core"
      unfolding match_body_Some by auto
    then show ?thesis by blast
  next
    case None
    with b have m: "match_body (chop_newline n) = Some core"
      by (simp add: base_pattern_def)
    with None have "chop_newline n \<noteq> n"
      by auto
    with chop_newline_cases [of n] have n: "n = chop_newline n @ [CHR 0x0A]"
      by blast
    from m obtain a b j where t: "chop_newline n = core @ CHR ''.'' # a @ CHR ''.'' # b @ CHR ''.'' # j"
      and r: "lower j = ''json''" "a \<noteq> []" "b \<noteq> []" "CHR ''.'' \<notin> set a" "CHR ''.'' \<notin> set b"
      "CHR 0x0A \<notin> set core"
      unfolding match_body_Some by blast
    from n t have "n = core @ CHR ''.'' # a @ CHR ''.'' # b @ CHR ''.'' # j @ [CHR 0x0A]"
      by (metis append.assoc append_Cons)
    with r show ?thesis by blast
  qed
next
  assume "\<exists>a b j nl. n = core @ CHR ''.'' # a @ CHR ''.'' # b @ CHR ''.'' # j @ nl
        \<and> lower j = ''json'' \<and> a \<noteq> [] \<and> b \<noteq> []
        \<and> CHR ''.'' \<notin> set a \<and> CHR ''.'' \<notin> set b \<and> CHR 0x0A \<notin> set core
        \<and> (nl = [] \<or> nl = [CHR 0x0A])"
  then obtain a b j nl where n: "n = core @ CHR ''.'' # a @ CHR ''.'' # b @ CHR ''.'' # j @ nl"
    and r: "lower j = ''json''" "a \<noteq> []" "b \<noteq> []" "CHR ''.'' \<notin> set a"
      "CHR ''.'' \<notin> set b" "CHR 0x0A \<notin> set core"
    and nl: "nl = [] \<or> nl = [CHR 0x0A]"
    by blast
  from r have m: "match_body (core @ CHR ''.'' # a @ CHR ''.'' # b @ CHR ''.'' # j) = Some core"
    unfolding match_body_Some by blast
  from nl show "base_pattern n = Some core"
  proof
    assume "nl = []"
    with n m show ?thesis
      by (simp add: base_pattern_def)
  next
    assume "nl = [CHR 0x0A]"
    with n have e: "n = (core @ CHR ''.'' # a @ CHR ''.'' # b @ CHR ''.'' # j) @ [CHR 0x0A]"
      by simp
    then have "match_body n = None"
      by (simp only: match_body_no_newline)
    moreover from e have "chop_newline n = core @ CHR ''.'' # a @ CHR ''.'' # b @ CHR ''.'' # j"
      by (simp only: chop_newline_snoc)
    ultimately show ?thesis
      using m by (simp add: base_pattern_def)
  qed
qed

subsection \<open>An escaped pattern matches one name only\<close>

lemma class_split_single:
  "magic_char c \<Longrightarrow> class_split (c # CHR '']'' # rest) = Some ([c], rest)"
  by (auto simp: class_split_def magic_char_def)

lemma in_class_single: "magic_char c \<Longrightarrow> in_class [c] x = (x = c)"
  by (auto simp: in_class_def magic_char_def)

lemma fnmatch_escape: "fnmatch (glob_escape s) n = (n = s)"
proof (induction s arbitrary: n)
  case Nil
  show ?case by (simp add: glob_escape_def)
next
  case (Cons c s)
  have split: "glob_escape (c # s) =
      (if magic_char c then [CHR ''['', c, CHR '']''] else [c]) @ glob_escape s"
    by (simp add: glob_escape_def)
  show ?case
  proof (cases n)
    case Nil
    then show ?thesis by (auto simp: split magic_char_def)
  next
    case (Cons y ys)
    show ?thesis
    proof (cases "magic_char c")
      case True
      then show ?thesis
        using Cons.IH [of ys] by (auto simp: split Cons class_split_single in_class_single)
    next
      case False
      then show ?thesis
        using Cons.IH [of ys] by (auto simp: split Cons magic_char_def)
    qed
  qed
qed

lemma has_magic_escape: "has_magic (glob_escape s) = has_magic s"
  by (induction s) (auto simp: has_magic_def glob_escape_def magic_char_def)

lemma escape_plain: "\<not> has_magic s \<Longrightarrow> glob_escape s = s"
  by (induction s) (auto simp: has_magic_def glob_escape_def)

lemma glob_escaped_literal:
  "c \<in> set (glob_glob d (glob_escape pat)) \<Longrightarrow> c = os_path_join (dir_path d) pat"
  by (auto simp: glob_glob_def glob1_def has_magic_escape escape_plain fnmatch_escape
      split: if_splits)

text \<open>
  A path that the matcher returns names one of the three pattern strings itself, star
  included: no entry is ever found through a wildcard.
\<close>

lemma matcher_literal:
  assumes "smart_file_matcher json_name d = Some p"
  shows "\<exists>core_name pattern. base_pattern json_name = Some core_name
     \<and> pattern \<in> set (patterns core_name) \<and> p = os_path_join (dir_path d) pattern"
proof -
  from assms obtain core_name where core: "base_pattern json_name = Some core_name"
    and f: "find accepted (candidates core_name d) = Some p"
    by (auto simp: smart_file_matcher_def split: option.splits)
  from f have "p \<in> set (candidates core_name d)"
    by (auto simp: find_Some_iff)
  then obtain pattern where "pattern \<in> set (patterns core_name)"
    and "p \<in> set (glob_glob d (glob_escape pattern))"
    by (auto simp: candidates_def)
  with core show ?thesis
    using glob_escaped_literal by blast
qed

lemma matcher_literal_witness:
  "smart_file_matcher ''trip.mp4.a.b.json''
      \<lparr>dir_path = ''photos'', entries = [''trip.mp4.a.b.json'', ''trip.mp4'']\<rparr>
     = Some ''photos/trip.mp4''
   \<and> base_pattern ''trip.mp4.a.b.json'' = Some ''trip.mp4''
   \<and> ''trip.mp4'' \<in> set (patterns ''trip.mp4'')
   \<and> ''photos/trip.mp4'' = os_path_join ''photos'' ''trip.mp4''"
proof -
  have m: "smart_file_matcher ''trip.mp4.a.b.json''
      \<lparr>dir_path = ''photos'', entries = [''trip.mp4.a.b.json'', ''trip.mp4'']\<rparr>
     = Some ''photos/trip.mp4''"
    by code_simp
  have r: "base_pattern ''trip.mp4.a.b.json'' = Some ''trip.mp4''
     \<and> ''trip.mp4'' \<in> set (patterns ''trip.mp4'')
     \<and> ''photos/trip.mp4'' = os_path_join ''photos'' ''trip.mp4''"
    by code_simp
  from matcher_literal [OF m] m r show ?thesis
    by (simp only: simp_thms)
qed

lemma lower_json: "lower ''.json'' = ''.json''"
  by (simp add: lower_def lower_char_def)

lemma endswith_lower:
  assumes "endswith p ''.json''"
  shows "endswith (lower p) ''.json''"
proof -
  from assms have len: "length ''.json'' \<le> length p"
    and d: "drop (length p - length ''.json'') p = ''.json''"
    unfolding endswith_def by blast+
  have "drop (length (lower p) - length ''.json'') (lower p)
      = lower (drop (length p - length ''.json'') p)"
    unfolding lower_def by (simp only: drop_map length_map)
  also have "\<dots> = ''.json''"
    by (simp only: d lower_json)
  finally have "drop (length (lower p) - length ''.json'') (lower p) = ''.json''" .
  moreover have "length ''.json'' \<le> length (lower p)"
    using len unfolding lower_def by (simp only: length_map)
  ultimately show ?thesis
    unfolding endswith_def by blast
qed

text \<open>
  Claim C9.  Whenever the matcher returns a path, the extension of that path, in lower
  case, is one of the eight of the whitelist, and the path does not end in \<open>.json\<close>,
  with or without regard to case: another sidecar is never selected.
\<close>

theorem matcher_selects_media_only:
  assumes "smart_file_matcher json_name d = Some p"
  shows "lower (snd (splitext p)) \<in> set valid_exts \<and> \<not> endswith (lower p) ''.json''
    \<and> \<not> endswith p ''.json''"
proof -
  from assms obtain core_name where "find accepted (candidates core_name d) = Some p"
    by (auto simp: smart_file_matcher_def split: option.splits)
  then have "accepted p"
    by (auto simp: find_Some_iff)
  then show ?thesis
    using endswith_lower [of p] by (auto simp: accepted_def)
qed

theorem matcher_selects_media_only_witness:
  "smart_file_matcher ''trip.mp4.a.b.json''
      \<lparr>dir_path = ''photos'', entries = [''trip.mp4.a.b.json'', ''trip.mp4'']\<rparr>
     = Some ''photos/trip.mp4''
   \<and> lower (snd (splitext ''photos/trip.mp4'')) \<in> set valid_exts
   \<and> \<not> endswith (lower ''photos/trip.mp4'') ''.json''
   \<and> \<not> endswith ''photos/trip.mp4'' ''.json''"
proof -
  have m: "smart_file_matcher ''trip.mp4.a.b.json''
      \<lparr>dir_path = ''photos'', entries = [''trip.mp4.a.b.json'', ''trip.mp4'']\<rparr>
     = Some ''photos/trip.mp4''"
    by code_simp
  from matcher_selects_media_only [OF m] m show ?thesis by simp
qed

text \<open>
  Claim C1.  The fallback patterns are built with their wildcards and then escaped as a
  whole, so the star of \<open>core.*\<close> and of the prefix pattern is matched as a literal star.
  For the sidecar \<open>trip.a.b.json\<close> the core is \<open>trip\<close>; the directory holds no file
  named \<open>trip\<close>; its file \<open>trip.jpg\<close> matches both \<open>trip.*\<close> and \<open>trip*\<close> as glob
  patterns and passes the test on extensions; the matcher still returns nothing.
\<close>

theorem fallback_wildcards_are_escaped:
  "base_pattern ''trip.a.b.json'' = Some ''trip''
   \<and> patterns ''trip'' = [''trip'', ''trip.*'', ''trip*'']
   \<and> fnmatch ''trip.*'' ''trip.jpg''
   \<and> fnmatch ''trip*'' ''trip.jpg''
   \<and> accepted ''photos/trip.jpg''
   \<and> map glob_escape (patterns ''trip'') = [''trip'', ''trip.[*]'', ''trip[*]'']
   \<and> smart_file_matcher ''trip.a.b.json''
        \<lparr>dir_path = ''photos'', entries = [''trip.jpg'', ''trip.a.b.json'']\<rparr> = None"
  by code_simp

text \<open>
  The part of claim C7 that holds: the matcher returns a path only for a name of the form
  \<open>core . a . b .json\<close>.
\<close>

lemma match_requires_name_form:
  assumes "smart_file_matcher json_name d = Some p"
  shows "\<exists>core a b j nl.
      json_name = core @ CHR ''.'' # a @ CHR ''.'' # b @ CHR ''.'' # j @ nl
      \<and> lower j = ''json'' \<and> a \<noteq> [] \<and> b \<noteq> []
      \<and> CHR ''.'' \<notin> set a \<and> CHR ''.'' \<notin> set b
      \<and> (nl = [] \<or> nl = [CHR 0x0A])"
proof -
  from assms obtain core where "base_pattern json_name = Some core"
    by (auto simp: smart_file_matcher_def split: option.splits)
  then show ?thesis
    unfolding base_pattern_Some by blast
qed

text \<open>
  Claim C7.  The pattern takes three segments off the name, not two: for the sidecar
  \<open>trip.mp4.supplemental-metadata.json\<close> the core is \<open>trip\<close>, and in a directory that
  holds \<open>trip.mp4\<close> the matcher returns nothing, since no entry is named \<open>trip\<close>,
  \<open>trip.*\<close> or \<open>trip*\<close>.  The example of the docstring, \<open>memory.mp4.su.json\<close>, has the
  core \<open>memory\<close>.  The sidecar \<open>trip.weird.json\<close> is not of the form and gives nothing.
\<close>

theorem exact_match_example_returns_nothing:
  "base_pattern ''trip.mp4.supplemental-metadata.json'' = Some ''trip''
   \<and> smart_file_matcher ''trip.mp4.supplemental-metadata.json''
        \<lparr>dir_path = ''photos'',
         entries = [''trip.mp4'', ''trip.mp4.supplemental-metadata.json'']\<rparr> = None
   \<and> base_pattern ''memory.mp4.su.json'' = Some ''memory''
   \<and> smart_file_matcher ''trip.weird.json''
        \<lparr>dir_path = ''photos'', entries = [''trip.mp4'', ''trip.weird.json'']\<rparr> = None"
  by code_simp

section \<open>Properties of the time extractor\<close>

lemma empty_value_falsy: "empty_value v \<Longrightarrow> \<not> truthy v"
  by (auto simp: empty_value_def)

lemma scan_passed_over:
  "passed_over pf data ks \<Longrightarrow> scan_sources pf data (ks # rest) = scan_sources pf data rest"
  by (auto simp: passed_over_def dest: empty_value_falsy split: sum.splits option.splits)



lemma beijing_time_in_range:
  "min_seconds \<le> t \<Longrightarrow> t \<le> max_seconds - 28800
    \<Longrightarrow> beijing_time t = Inr (strftime (t + 28800))"
  by (simp add: beijing_time_def utcfromtimestamp_def add_hours_def min_seconds_def
      max_seconds_def)

text \<open>
  Claim C2.  The epoch 0 is a valid epoch, and eight hours after it the clock shows
  \<open>1970:01:01 08:00:00\<close>; the extractor returns nothing for it and warns that no time
  source was found.  As the string \<open>"0"\<close> the value is read, and the test
  \<open>if not timestamp\<close> then takes the timestamp 0 for a missing one; as the number \<open>0\<close> it
  is not even read, since the test of the loop takes it for a missing value.
\<close>

theorem epoch_zero_is_dropped:
  "enhanced_parse_time pf
      (Inr (JObject [(''photoTakenTime'', JObject [(''timestamp'', JString ''0'')])]))
     = (None, [(WARNING, No_time_source)])
   \<and> enhanced_parse_time pf
      (Inr (JObject [(''photoTakenTime'', JObject [(''timestamp'', JInt 0)])]))
     = (None, [(WARNING, No_time_source)])
   \<and> beijing_time 0 = Inr ''1970:01:01 08:00:00''"
  by code_simp




text \<open>
  A location that cannot be read, or a value whose conversion raises another exception
  than \<open>ValueError\<close> and \<open>TypeError\<close>, ends the search: when the locations before it are
  passed over, nothing is returned and the failure is logged as an error.
\<close>

lemma fatal_location_ends_search:
  assumes "time_sources = before @ ks # rest"
    and "list_all (passed_over pf data) before"
    and "lookup_source data ks = Inl e
         \<or> (\<exists>v. lookup_source data ks = Inr (Some v) \<and> truthy v \<and> convert pf v = Fatal e)"
  shows "enhanced_parse_time pf (Inr data) = (None, [(ERROR, Time_parse_failed e)])"
proof -
  have "scan_sources pf data (ks # rest) = Inl e"
    using assms(3) by auto
  moreover have "scan_sources pf data (before @ ks # rest) = scan_sources pf data (ks # rest)"
    using assms(2) by (induction before) (simp_all add: scan_passed_over del: scan_sources.simps)
  ultimately show ?thesis
    by (simp add: enhanced_parse_time_def assms(1))
qed

lemma fatal_location_ends_search_witness:
  "time_sources = [] @ (''photoTakenTime'', ''timestamp'') #
      [(''creationTime'', ''timestamp''), (''photoTakenTime'', ''formatted''),
       (''creationTime'', ''formatted'')]
   \<and> list_all (passed_over rejects_all null_taken_time) []
   \<and> lookup_source null_taken_time (''photoTakenTime'', ''timestamp'') = Inl AttributeError
   \<and> enhanced_parse_time rejects_all (Inr null_taken_time)
       = (None, [(ERROR, Time_parse_failed AttributeError)])"
proof -
  have a: "time_sources = [] @ (''photoTakenTime'', ''timestamp'') #
      [(''creationTime'', ''timestamp''), (''photoTakenTime'', ''formatted''),
       (''creationTime'', ''formatted'')]"
    by (simp add: time_sources_def)
  have b: "list_all (passed_over rejects_all null_taken_time) []"
    by simp
  have c: "lookup_source null_taken_time (''photoTakenTime'', ''timestamp'') = Inl AttributeError"
    by code_simp
  from fatal_location_ends_search [OF a b disjI1 [OF c]] a b c show ?thesis
    by simp
qed

text \<open>
  An epoch other than 0 that the time type can hold, and can still hold eight hours
  later, found as a number at the first location, comes back as the text of the moment
  28800 seconds after it.
\<close>

lemma nonzero_epoch_is_formatted:
  assumes "lookup_source data (''photoTakenTime'', ''timestamp'') = Inr (Some (JInt t))"
    and "t \<noteq> 0"
    and "min_seconds \<le> t"
    and "t \<le> max_seconds - 28800"
  shows "enhanced_parse_time pf (Inr data) = (Some (strftime (t + 28800)), [])"
proof -
  have "scan_sources pf data time_sources = Inr (Some t)"
    using assms(1,2) by (simp add: time_sources_def convert_def)
  with assms(2) beijing_time_in_range [OF assms(3,4)] show ?thesis
    by (simp add: enhanced_parse_time_def)
qed

lemma nonzero_epoch_is_formatted_witness:
  "lookup_source (JObject [(''photoTakenTime'', JObject [(''timestamp'', JInt 1600000000)])])
      (''photoTakenTime'', ''timestamp'') = Inr (Some (JInt 1600000000))
   \<and> (1600000000 :: int) \<noteq> 0
   \<and> min_seconds \<le> 1600000000
   \<and> 1600000000 \<le> max_seconds - 28800
   \<and> strftime (1600000000 + 28800) = ''2020:09:13 20:26:40''
   \<and> enhanced_parse_time rejects_all
        (Inr (JObject [(''photoTakenTime'', JObject [(''timestamp'', JInt 1600000000)])]))
       = (Some ''2020:09:13 20:26:40'', [])"
proof -
  have a: "lookup_source (JObject [(''photoTakenTime'', JObject [(''timestamp'', JInt 1600000000)])])
      (''photoTakenTime'', ''timestamp'') = Inr (Some (JInt 1600000000))"
    by code_simp
  have b: "(1600000000 :: int) \<noteq> 0" "min_seconds \<le> 1600000000"
    "1600000000 \<le> max_seconds - 28800"
    by (simp_all add: min_seconds_def max_seconds_def)
  have c: "strftime (1600000000 + 28800) = ''2020:09:13 20:26:40''"
    by code_simp
  from nonzero_epoch_is_formatted [OF a b, of rejects_all] a b c show ?thesis
    by (simp only: simp_thms)
qed

section \<open>Properties of the geo extractor\<close>





section \<open>Properties of the metadata writer\<close>

text \<open>
  Claim C3.  The first run of the command stands before the \<open>try\<close>, so what it raises
  leaves the writer: with no \<open>exiftool\<close> on the machine \<open>subprocess.run\<close> raises
  \<open>FileNotFoundError\<close>, and the writer raises it in turn instead of returning a failure.
\<close>

theorem first_run_exception_propagates:
  "outcome (robust_exiftool_exec missing_tool [] exif_cmd ''photo.jpg'')
     = Raised ''[Errno 2] No such file or directory: exiftool''"
  by code_simp

text \<open>
  Once the first run has completed, with whatever status, the writer returns: what the
  strip and the second run raise is caught.
\<close>

lemma returns_when_first_run_completes:
  "w (length done) (list_insert 1 ''-m'' cmd) = Completed rc err
    \<Longrightarrow> \<exists>ok msg. outcome (robust_exiftool_exec w done cmd fp) = Returned (ok, msg)"
  by (auto simp: robust_exiftool_exec_def Let_def split: proc.splits)

lemma returns_when_first_run_completes_witness:
  "fails_once (length ([] :: string list list)) (list_insert 1 ''-m'' exif_cmd)
      = Completed 1 ''Error: bad IFD  ''
   \<and> (\<exists>ok msg. outcome (robust_exiftool_exec fails_once [] exif_cmd ''photo.jpg'')
        = Returned (ok, msg))"
proof -
  have a: "fails_once (length ([] :: string list list)) (list_insert 1 ''-m'' exif_cmd)
      = Completed 1 ''Error: bad IFD  ''"
    by (simp add: fails_once_def)
  from returns_when_first_run_completes
      [of fails_once "[]" exif_cmd 1 "''Error: bad IFD  ''" "''photo.jpg''"] a
  show ?thesis
    by blast
qed



text \<open>
  Claim C10.  Whatever the runs do, the caller's list afterwards is the list passed in with
  \<open>-m\<close> inserted at index 1: it is one longer and so differs from the list passed in, and
  for a list that is not empty it is the first element, then \<open>-m\<close>, then the other elements
  in their order.
\<close>

theorem command_list_is_mutated:
  "cmd_after (robust_exiftool_exec w done cmd fp) = list_insert 1 ''-m'' cmd
   \<and> length (cmd_after (robust_exiftool_exec w done cmd fp)) = Suc (length cmd)
   \<and> cmd_after (robust_exiftool_exec w done cmd fp) \<noteq> cmd
   \<and> (cmd \<noteq> [] \<longrightarrow>
        cmd_after (robust_exiftool_exec w done cmd fp) = hd cmd # ''-m'' # tl cmd)"
proof -
  have a: "cmd_after (robust_exiftool_exec w done cmd fp) = list_insert 1 ''-m'' cmd"
    by (simp add: robust_exiftool_exec_def Let_def split: proc.splits)
  have l: "length (list_insert 1 ''-m'' cmd) = Suc (length cmd)"
    by (simp add: list_insert_def)
  then have n: "list_insert 1 ''-m'' cmd \<noteq> cmd"
    by (metis n_not_Suc_n)
  have h: "cmd \<noteq> [] \<longrightarrow> list_insert 1 ''-m'' cmd = hd cmd # ''-m'' # tl cmd"
    by (cases cmd) (simp_all add: list_insert_def)
  from a l n h show ?thesis by simp
qed

theorem command_list_is_mutated_witness:
  "exif_cmd \<noteq> []
   \<and> cmd_after (robust_exiftool_exec missing_tool [] exif_cmd ''photo.jpg'')
       = [''exiftool'', ''-m'', ''-overwrite_original'', ''-AllDates=2020:09:13 20:26:40'',
          ''photo.jpg'']
   \<and> cmd_after (robust_exiftool_exec fails_once [] exif_cmd ''photo.jpg'')
       = [''exiftool'', ''-m'', ''-overwrite_original'', ''-AllDates=2020:09:13 20:26:40'',
          ''photo.jpg'']"
proof -
  have ne: "exif_cmd \<noteq> []"
    by (simp add: exif_cmd_def)
  from command_list_is_mutated [of missing_tool "[]" exif_cmd "''photo.jpg''"]
    command_list_is_mutated [of fails_once "[]" exif_cmd "''photo.jpg''"] ne
  show ?thesis by (simp add: exif_cmd_def list_insert_def)
qed

section \<open>Properties of the exit status\<close>

lemma failure_log_name_plain:
  assumes "CHR ''/'' \<notin> set log_path"
  shows "failure_log_name log_path = ''FAILURES_'' @ log_path"
proof -
  have "takeWhile (\<lambda>x. x \<noteq> CHR ''/'') (rev log_path) = rev log_path"
    using assms by (intro takeWhile_eq_all_conv [THEN iffD2]) auto
  then have t: "after_last (CHR ''/'') log_path = log_path"
    by (simp only: after_last_def rev_rev_ident)
  have "dropWhile (\<lambda>x. x \<noteq> CHR ''/'') (rev log_path) = []"
    using assms by (intro dropWhile_eq_Nil_conv [THEN iffD2]) auto
  then have u: "upto_last (CHR ''/'') log_path = []"
    by (simp only: upto_last_def rev.simps)
  show ?thesis
    by (simp add: failure_log_name_def os_path_dirname_def os_path_basename_def
        os_path_join_def t u)
qed

lemma report_lists_every_failure:
  "(path, reason) \<in> set failures \<Longrightarrow> Path_line path reason \<in> set (report_lines failures)"
  by (force simp: report_lines_def)

text \<open>
  Claim C8.  Over a valid target directory: with no failure recorded the status is 0 and no
  report is written; with a failure recorded (and a report file that can be written) the
  status is 101 and the report holds the path and the reason of every failure, in a file
  whose name is the name of the log with \<open>FAILURES_\<close> before it.  An invalid target
  directory gives the status 1, and so does an exception, from \<open>process_directory\<close> or from
  writing the report; no report is left then.
\<close>

theorem exit_status_and_report:
  fixes failed_files :: "(string \<times> 'r) list"
    and processed :: "string + (string \<times> 'r) list"
  shows
  "(is_dir \<longrightarrow>
      exit_status
        (main target_dir is_dir (Inr [] :: string + (string \<times> 'r) list) writable log_path) = 0
      \<and> report
        (main target_dir is_dir (Inr [] :: string + (string \<times> 'r) list) writable log_path)
          = None)
   \<and> (is_dir \<and> failed_files \<noteq> [] \<and> writable \<longrightarrow>
      exit_status (main target_dir is_dir (Inr failed_files) writable log_path) = 101
      \<and> report (main target_dir is_dir (Inr failed_files) writable log_path)
          = Some (failure_log_name log_path, report_lines failed_files)
      \<and> (\<forall>(path, reason) \<in> set failed_files.
            Path_line path reason \<in> set (report_lines failed_files))
      \<and> (CHR ''/'' \<notin> set log_path \<longrightarrow>
            failure_log_name log_path = ''FAILURES_'' @ log_path))
   \<and> (\<not> is_dir \<longrightarrow>
      exit_status (main target_dir is_dir processed writable log_path) = 1
      \<and> report (main target_dir is_dir processed writable log_path) = None)
   \<and> (is_dir \<longrightarrow>
      exit_status
        (main target_dir is_dir (Inl e :: string + (string \<times> 'r) list) writable log_path) = 1
      \<and> report
        (main target_dir is_dir (Inl e :: string + (string \<times> 'r) list) writable log_path)
          = None)
   \<and> (is_dir \<and> failed_files \<noteq> [] \<and> \<not> writable \<longrightarrow>
      exit_status (main target_dir is_dir (Inr failed_files) writable log_path) = 1
      \<and> report (main target_dir is_dir (Inr failed_files) writable log_path) = None)"
  using report_lists_every_failure [of _ _ failed_files] failure_log_name_plain [of log_path]
  by (auto simp: main_def generate_failure_log_def)

theorem exit_status_and_report_witness:
  "exit_status
      (main ''photos'' True (Inr ([] :: (string \<times> reason) list)) True
        ''PhotoRepair_20200913_202640.log'') = 0
   \<and> report
      (main ''photos'' True (Inr ([] :: (string \<times> reason) list)) True
        ''PhotoRepair_20200913_202640.log'') = None
   \<and> two_failures \<noteq> []
   \<and> exit_status
      (main ''photos'' True (Inr two_failures) True ''PhotoRepair_20200913_202640.log'') = 101
   \<and> report (main ''photos'' True (Inr two_failures) True ''PhotoRepair_20200913_202640.log'')
       = Some (''FAILURES_PhotoRepair_20200913_202640.log'',
               [Title, Rule_equals,
                Path_line ''photos/b.c.d.json'' Media_not_found, Rule_dashes,
                Path_line ''photos/a.jpg'' (Writer_error (Final_failure ''still bad'')),
                Rule_dashes])
   \<and> exit_status
      (main ''nowhere'' False (Inr two_failures) True ''PhotoRepair_20200913_202640.log'') = 1
   \<and> exit_status
      (main ''photos'' True (Inl ''boom'' :: string + (string \<times> reason) list) True
        ''PhotoRepair_20200913_202640.log'') = 1
   \<and> exit_status
      (main ''photos'' True (Inr two_failures) False ''PhotoRepair_20200913_202640.log'') = 1"
proof -
  have ne: "two_failures \<noteq> []"
    by (simp add: two_failures_def)
  have slash: "CHR ''/'' \<notin> set ''PhotoRepair_20200913_202640.log''"
    by simp
  note a = exit_status_and_report [of True "''photos''" True
      "''PhotoRepair_20200913_202640.log''" two_failures "Inr two_failures" "''boom''"]
  note b = exit_status_and_report [of False "''nowhere''" True
      "''PhotoRepair_20200913_202640.log''" two_failures "Inr two_failures" "''boom''"]
  note c = exit_status_and_report [of True "''photos''" False
      "''PhotoRepair_20200913_202640.log''" two_failures "Inr two_failures" "''boom''"]
  have n: "failure_log_name ''PhotoRepair_20200913_202640.log''
      = ''FAILURES_PhotoRepair_20200913_202640.log''"
    using failure_log_name_plain [OF slash] by simp
  have r: "report_lines two_failures =
      [Title, Rule_equals,
       Path_line ''photos/b.c.d.json'' Media_not_found, Rule_dashes,
       Path_line ''photos/a.jpg'' (Writer_error (Final_failure ''still bad'')), Rule_dashes]"
    by (simp add: two_failures_def report_lines_def)
  from a b c ne show ?thesis
    by (simp add: n r)
qed

end
